theory Spec2Isabelle
  imports Main
begin

section \<open>The typed-slot registry of \<^verbatim>\<open>history.h\<close>\<close>

text \<open>
  \<^verbatim>\<open>enum StorageType\<close>, in the order of the header (the numeric values 0..6 are not
  used by any operation studied here).
\<close>

datatype StorageType =
    TYPE_VECTOR
  | TYPE_SCALAR
  | TYPE_ARRAY
  | TYPE_RANKTWO
  | TYPE_SYMMETRIC
  | TYPE_SKEW
  | TYPE_ROT

text \<open>
  The template parameter \<open>T\<close> of \<^verbatim>\<open>GetStorageType<T>\<close>, \<^verbatim>\<open>GetStorageSize<T>\<close>,
  \<^verbatim>\<open>add<T>\<close> and \<^verbatim>\<open>get<T>\<close>. The primary templates are declared without a body and
  the header specialises them for six types only, so these six are the types a program
  that builds can pass; \<open>Double\<close> stands for \<^verbatim>\<open>double\<close>.
\<close>

datatype value_type = Vector | RankTwo | Symmetric | Skew | Orientation | Double

fun GetStorageType :: "value_type \<Rightarrow> StorageType" where
  "GetStorageType Vector = TYPE_VECTOR"
| "GetStorageType RankTwo = TYPE_RANKTWO"
| "GetStorageType Symmetric = TYPE_SYMMETRIC"
| "GetStorageType Skew = TYPE_SKEW"
| "GetStorageType Orientation = TYPE_ROT"
| "GetStorageType Double = TYPE_SCALAR"

fun GetStorageSize :: "value_type \<Rightarrow> nat" where
  "GetStorageSize Vector = 3"
| "GetStorageSize RankTwo = 9"
| "GetStorageSize Symmetric = 6"
| "GetStorageSize Skew = 3"
| "GetStorageSize Orientation = 4"
| "GetStorageSize Double = 1"

section \<open>The ledger: class \<^verbatim>\<open>History\<close>\<close>

text \<open>
  The private members \<^verbatim>\<open>size_\<close>, \<^verbatim>\<open>store_\<close>, \<^verbatim>\<open>storage_\<close>, \<^verbatim>\<open>loc_\<close> and \<^verbatim>\<open>type_\<close>
  (a trailing underscore is not a legal field name here, hence the suffix \<open>_m\<close>).

  The scalar type \<^verbatim>\<open>double\<close> is the type parameter \<open>'d\<close>: the operations below move
  scalars and never compute with them. The memory \<^verbatim>\<open>storage_\<close> points to is a list of
  cells; a cell that was allocated and not yet written holds \<open>None\<close>.
  \<^verbatim>\<open>size_t\<close> is modelled by \<open>nat\<close>: \<^verbatim>\<open>size_\<close> grows only together with an allocation of
  that many scalars, which fails long before the counter can wrap.
\<close>

record 'd history =
  size_m :: nat
  store_m :: bool
  storage_m :: "'d option list"
  loc_m :: "string \<rightharpoonup> nat"
  type_m :: "string \<rightharpoonup> StorageType"

text \<open>The error kinds of the ledger; \<open>OutOfRange\<close> is what \<^verbatim>\<open>std::map::at\<close> throws.\<close>

datatype error =
    DuplicateDeclaration
  | UnknownName
  | TypeMismatch
  | UnsupportedResize
  | OutOfRange

text \<open>
  Modelled from the spec: the constructors \<^verbatim>\<open>History()\<close> and \<^verbatim>\<open>History(bool store)\<close>,
  whose bodies are not part of the header. A ledger is created empty with size 0, owning
  (\<^verbatim>\<open>History()\<close> is \<open>History_new True\<close>) or not.
\<close>

definition History_new :: "bool \<Rightarrow> 'd history" where
  "History_new store =
     \<lparr>size_m = 0, store_m = store, storage_m = [], loc_m = Map.empty, type_m = Map.empty\<rparr>"

text \<open>
  Modelled from the spec: \<^verbatim>\<open>size()\<close>, declared in the header without a body: the total
  scalar-element count.
\<close>

definition size_of :: "'d history \<Rightarrow> nat" where
  "size_of h = size_m h"

text \<open>
  Modelled from the spec: the private checks \<^verbatim>\<open>error_if_exists_\<close>,
  \<^verbatim>\<open>error_if_not_exists_\<close> and \<^verbatim>\<open>error_if_wrong_type_\<close>, declared \<^verbatim>\<open>const\<close> in the
  header without a body. A declaration fails with a duplicate-declaration error if the
  name is already present; a retrieval fails with unknown name if it is absent and with
  type mismatch if \<open>slot_type[name]\<close> is not the requested tag. Presence is presence in
  the offset map. \<open>None\<close> is a normal return, \<open>Some e\<close> a raised error; being \<^verbatim>\<open>const\<close>,
  the checks return no ledger.
\<close>

definition error_if_exists :: "string \<Rightarrow> 'd history \<Rightarrow> error option" where
  "error_if_exists name h =
     (if loc_m h name \<noteq> None then Some DuplicateDeclaration else None)"

definition error_if_not_exists :: "string \<Rightarrow> 'd history \<Rightarrow> error option" where
  "error_if_not_exists name h =
     (if loc_m h name = None then Some UnknownName else None)"

definition error_if_wrong_type :: "string \<Rightarrow> StorageType \<Rightarrow> 'd history \<Rightarrow> error option" where
  "error_if_wrong_type name ty h =
     (if type_m h name \<noteq> Some ty then Some TypeMismatch else None)"

text \<open>
  Modelled from the spec: \<^verbatim>\<open>resize(size_t inc)\<close>, declared in the header without a body.
  It grows owning storage by \<open>inc\<close> scalars, keeping the existing contents at their
  offsets, and fails on a non-owning ledger. The result pairs the raised error, if any,
  with the ledger as the call leaves it.
\<close>

definition resize :: "nat \<Rightarrow> 'd history \<Rightarrow> error option \<times> 'd history" where
  "resize inc h =
     (if store_m h
      then (let old = take (size_m h) (storage_m h)
            in (None, h\<lparr>size_m := size_m h + inc,
                            storage_m := old @ replicate (size_m h + inc - length old) None\<rparr>))
      else (Some UnsupportedResize, h))"

text \<open>
  \<^verbatim>\<open>std::map::insert\<close>: the pair is stored only if the key is not in the map yet.
\<close>

definition map_insert :: "('k \<rightharpoonup> 'v) \<Rightarrow> 'k \<Rightarrow> 'v \<Rightarrow> ('k \<rightharpoonup> 'v)" where
  "map_insert m k v = (case m k of None \<Rightarrow> m(k \<mapsto> v) | Some _ \<Rightarrow> m)"

text \<open>
  \<^verbatim>\<open>History::add<T>(name)\<close>, statement by statement. An exception leaves the object as
  the statements before it made it, so the ledger is returned on both paths.
\<close>

definition add :: "value_type \<Rightarrow> string \<Rightarrow> 'd history \<Rightarrow> error option \<times> 'd history" where
  "add T name h =
     (case error_if_exists name h of
        Some e \<Rightarrow> (Some e, h)
      | None \<Rightarrow>
          (let h1 = h\<lparr>loc_m := map_insert (loc_m h) name (size_m h)\<rparr>;
               h2 = h1\<lparr>type_m := map_insert (type_m h1) name (GetStorageType T)\<rparr>
           in resize (GetStorageSize T) h2))"

text \<open>
  What \<^verbatim>\<open>get<T>\<close> returns, \<^verbatim>\<open>item_return<T>::type\<close>: for \<^verbatim>\<open>double\<close> the reference
  \<^verbatim>\<open>double &\<close> to one cell of the buffer, for the other types an object of type \<open>T\<close>
  constructed over the pointer \<^verbatim>\<open>&storage_[offset]\<close>. A pointer into the buffer is the
  index of the cell it points to.
\<close>

datatype item_return = Wrapper value_type nat | Reference nat

text \<open>
  \<^verbatim>\<open>History::get<T>(name) const\<close> and its specialisation for \<^verbatim>\<open>double\<close>: the two checks,
  then \<^verbatim>\<open>loc_.at(name)\<close>. The function is \<^verbatim>\<open>const\<close> and returns no ledger.
\<close>

definition get :: "value_type \<Rightarrow> string \<Rightarrow> 'd history \<Rightarrow> error + item_return" where
  "get T name h =
     (case error_if_not_exists name h of
        Some e \<Rightarrow> Inl e
      | None \<Rightarrow>
          (case error_if_wrong_type name (GetStorageType T) h of
             Some e \<Rightarrow> Inl e
           | None \<Rightarrow>
               (case loc_m h name of
                  None \<Rightarrow> Inl OutOfRange
                | Some off \<Rightarrow> Inr (if T = Double then Reference off else Wrapper T off))))"

text \<open>
  The header declares a single \<^verbatim>\<open>get\<close>, qualified \<^verbatim>\<open>const\<close>: a call through a
  \<^verbatim>\<open>const History\<close> and a call through a \<^verbatim>\<open>History\<close> both resolve to it, and its return
  type (\<open>T\<close>, or \<^verbatim>\<open>double &\<close>) is the same in both.
\<close>

datatype handle = ConstHandle | MutableHandle

definition get_via :: "handle \<Rightarrow> value_type \<Rightarrow> string \<Rightarrow> 'd history \<Rightarrow> error + item_return" where
  "get_via via T name h =
     (case via of ConstHandle \<Rightarrow> get T name h | MutableHandle \<Rightarrow> get T name h)"

text \<open>
  The getters \<^verbatim>\<open>get_loc()\<close> and \<^verbatim>\<open>get_type()\<close>. The non-\<^verbatim>\<open>const\<close> overloads return
  \<^verbatim>\<open>std::map &\<close>, a reference to the member itself: whatever map operation \<open>f\<close> the caller
  applies to the reference is applied to the member.
\<close>

definition get_loc :: "'d history \<Rightarrow> (string \<rightharpoonup> nat)" where
  "get_loc h = loc_m h"

definition get_type :: "'d history \<Rightarrow> (string \<rightharpoonup> StorageType)" where
  "get_type h = type_m h"

definition modify_loc :: "((string \<rightharpoonup> nat) \<Rightarrow> (string \<rightharpoonup> nat)) \<Rightarrow> 'd history \<Rightarrow> 'd history" where
  "modify_loc f h = h\<lparr>loc_m := f (loc_m h)\<rparr>"

definition modify_type ::
  "((string \<rightharpoonup> StorageType) \<Rightarrow> (string \<rightharpoonup> StorageType)) \<Rightarrow> 'd history \<Rightarrow> 'd history" where
  "modify_type g h = h\<lparr>type_m := g (type_m h)\<rparr>"

section \<open>Typed views\<close>

fun item_offset :: "item_return \<Rightarrow> nat" where
  "item_offset (Wrapper T off) = off"
| "item_offset (Reference off) = off"

fun item_footprint :: "item_return \<Rightarrow> nat" where
  "item_footprint (Wrapper T off) = GetStorageSize T"
| "item_footprint (Reference off) = 1"

text \<open>
  Modelled from the spec: the view constructors \<^verbatim>\<open>T(double *)\<close> of \<^verbatim>\<open>math/tensors.h\<close>
  and \<^verbatim>\<open>math/rotations.h\<close>, which are not among the sources. The handle's backing memory
  is the region of \<open>footprint(T)\<close> scalars at the pointer, with no copy: a read yields
  those cells, a write of the components of a value stores them there and touches
  nothing else. A reference to a scalar is read and assigned as one cell. An access that
  leaves the buffer is undefined behaviour: \<open>None\<close>.
\<close>

definition read_item :: "item_return \<Rightarrow> 'd history \<Rightarrow> 'd option list option" where
  "read_item it h =
     (if item_offset it + item_footprint it \<le> length (storage_m h)
      then Some (take (item_footprint it) (drop (item_offset it) (storage_m h)))
      else None)"

definition write_item :: "item_return \<Rightarrow> 'd list \<Rightarrow> 'd history \<Rightarrow> 'd history option" where
  "write_item it v h =
     (if item_offset it + item_footprint it \<le> length (storage_m h) \<and> length v = item_footprint it
      then Some (h\<lparr>storage_m := take (item_offset it) (storage_m h) @ map Some v @
                                     drop (item_offset it + item_footprint it) (storage_m h)\<rparr>)
      else None)"

section \<open>Sequences of declarations\<close>

text \<open>
  A setup pass declares its variables one after the other; the first exception ends it.
\<close>

fun add_all :: "(value_type \<times> string) list \<Rightarrow> 'd history \<Rightarrow> error option \<times> 'd history" where
  "add_all [] h = (None, h)"
| "add_all (d # ds) h =
     (case add (fst d) (snd d) h of
        (None, h') \<Rightarrow> add_all ds h'
      | (Some e, h') \<Rightarrow> (Some e, h'))"

text \<open>The running total of the footprints of a sequence of declarations.\<close>

definition running_total :: "(value_type \<times> string) list \<Rightarrow> nat" where
  "running_total ds = sum_list (map (\<lambda>d. GetStorageSize (fst d)) ds)"

text \<open>
  The cells of a declared slot: the half-open range of \<open>footprint(T)\<close> indices from the
  offset recorded for the name.
\<close>

definition slot_range :: "'d history \<Rightarrow> value_type \<times> string \<Rightarrow> nat set" where
  "slot_range h d =
     (case loc_m h (snd d) of
        None \<Rightarrow> {}
      | Some off \<Rightarrow> {off ..< off + GetStorageSize (fst d)})"

text \<open>
  The end-to-end scenario of the specification: a symmetric tensor \<open>stress\<close>, then a
  scalar \<open>hardening\<close>, declared into an empty owning ledger.
\<close>

definition stress_hardening :: "(value_type \<times> string) list" where
  "stress_hardening = [(Symmetric, ''stress''), (Double, ''hardening'')]"

definition stress_hardening_ledger :: "nat history" where
  "stress_hardening_ledger = snd (add_all stress_hardening (History_new True))"

section \<open>Basic facts about declarations\<close>

lemma add_duplicate:
  "loc_m h name \<noteq> None \<Longrightarrow> add T name h = (Some DuplicateDeclaration, h)"
  by (simp add: add_def error_if_exists_def)

lemma add_not_owning:
  "loc_m h name = None \<Longrightarrow> \<not> store_m h \<Longrightarrow>
   add T name h =
     (Some UnsupportedResize,
      h\<lparr>loc_m := (loc_m h)(name \<mapsto> size_m h),
        type_m := map_insert (type_m h) name (GetStorageType T)\<rparr>)"
  by (simp add: add_def error_if_exists_def resize_def map_insert_def Let_def split: option.split)

lemma add_owning:
  "loc_m h name = None \<Longrightarrow> store_m h \<Longrightarrow>
   add T name h =
     (None,
      h\<lparr>loc_m := (loc_m h)(name \<mapsto> size_m h),
        type_m := map_insert (type_m h) name (GetStorageType T),
        size_m := size_m h + GetStorageSize T,
        storage_m := take (size_m h) (storage_m h) @
          replicate (size_m h + GetStorageSize T - length (take (size_m h) (storage_m h))) None\<rparr>)"
  by (simp add: add_def error_if_exists_def resize_def map_insert_def Let_def split: option.split)

lemma add_success_iff:
  "add T name h = (None, h') \<Longrightarrow> loc_m h name = None \<and> store_m h"
  by (cases "loc_m h name = None"; cases "store_m h")
     (auto simp: add_duplicate add_not_owning)

lemma add_all_append:
  "add_all (ds @ es) h =
     (case add_all ds h of (None, h') \<Rightarrow> add_all es h' | (Some e, h') \<Rightarrow> (Some e, h'))"
  by (induction ds arbitrary: h) (auto split: prod.splits option.splits)

lemma add_all_snoc_success:
  assumes "add_all (ds @ [d]) h = (None, h')"
  obtains h1 where "add_all ds h = (None, h1)" and "add (fst d) (snd d) h1 = (None, h')"
  using assms by (auto simp: add_all_append split: prod.splits option.splits)

lemma running_total_Nil [simp]: "running_total [] = 0"
  by (simp add: running_total_def)

lemma running_total_snoc [simp]: "running_total (ds @ [d]) = running_total ds + GetStorageSize (fst d)"
  by (simp add: running_total_def)

lemma running_total_take_Suc:
  "i < length ds \<Longrightarrow> running_total (take (Suc i) ds) = running_total (take i ds) + GetStorageSize (fst (ds ! i))"
  by (simp add: take_Suc_conv_app_nth)

lemma running_total_take_mono: "i \<le> j \<Longrightarrow> running_total (take i ds) \<le> running_total (take j ds)"
proof (induction j)
  case 0
  then show ?case by simp
next
  case (Suc j)
  show ?case
  proof (cases "i = Suc j")
    case True
    then show ?thesis by simp
  next
    case False
    with Suc have le: "running_total (take i ds) \<le> running_total (take j ds)" by simp
    show ?thesis
    proof (cases "j < length ds")
      case True
      with le show ?thesis by (simp add: running_total_take_Suc)
    next
      case False
      with le show ?thesis by simp
    qed
  qed
qed

lemma layout:
  "add_all ds (History_new b) = (None, h) \<Longrightarrow>
     size_m h = running_total ds \<and> length (storage_m h) = running_total ds \<and>
     dom (loc_m h) = snd ` set ds \<and> dom (type_m h) = snd ` set ds \<and>
     distinct (map snd ds) \<and> store_m h = b \<and>
     (\<forall>i<length ds. loc_m h (snd (ds ! i)) = Some (running_total (take i ds)) \<and>
                    type_m h (snd (ds ! i)) = Some (GetStorageType (fst (ds ! i))))"
proof (induction ds arbitrary: h rule: rev_induct)
  case Nil
  then show ?case by (auto simp: History_new_def)
next
  case (snoc d ds)
  from snoc.prems obtain h1 where
    h1: "add_all ds (History_new b) = (None, h1)" and
    ad: "add (fst d) (snd d) h1 = (None, h)"
    by (rule add_all_snoc_success)
  note IH = snoc.IH [OF h1]
  from add_success_iff [OF ad] have fresh: "loc_m h1 (snd d) = None" and own: "store_m h1"
    by simp_all
  from fresh IH have notin: "snd d \<notin> snd ` set ds" by (metis domIff)
  with IH have tfresh: "type_m h1 (snd d) = None" by (metis domIff)
  from ad add_owning [OF fresh own, of "fst d"] have
    h: "h = h1\<lparr>loc_m := (loc_m h1)(snd d \<mapsto> size_m h1),
        type_m := (type_m h1)(snd d \<mapsto> GetStorageType (fst d)),
        size_m := size_m h1 + GetStorageSize (fst d),
        storage_m := storage_m h1 @ replicate (GetStorageSize (fst d)) None\<rparr>"
    using IH tfresh by (simp add: map_insert_def)
  have slots: "loc_m h (snd ((ds @ [d]) ! i)) = Some (running_total (take i (ds @ [d]))) \<and>
           type_m h (snd ((ds @ [d]) ! i)) = Some (GetStorageType (fst ((ds @ [d]) ! i)))"
    if "i < length (ds @ [d])" for i
  proof (cases "i < length ds")
    case True
    then have "snd (ds ! i) \<in> snd ` set ds" by simp
    with notin have "snd (ds ! i) \<noteq> snd d" by metis
    with True IH show ?thesis by (simp add: h nth_append)
  next
    case False
    with that have "i = length ds" by simp
    with IH show ?thesis by (simp add: h)
  qed
  from IH notin have "size_m h = running_total (ds @ [d])" "length (storage_m h) = running_total (ds @ [d])"
    "dom (loc_m h) = snd ` set (ds @ [d])" "dom (type_m h) = snd ` set (ds @ [d])"
    "distinct (map snd (ds @ [d]))" "store_m h = b"
    by (auto simp: h)
  with slots show ?case by blast
qed

section \<open>Offsets of declared slots\<close>

lemma slot_range_declared:
  assumes "add_all ds (History_new b) = (None, h)" and "i < length ds"
  shows "slot_range h (ds ! i) =
           {running_total (take i ds) ..< running_total (take (Suc i) ds)}"
  using layout [OF assms(1)] assms(2)
  by (simp add: slot_range_def running_total_take_Suc)

lemma ranges_cover:
  "n \<le> length ds \<Longrightarrow>
   (\<Union>i<n. {running_total (take i ds) ..< running_total (take (Suc i) ds)}) =
     {..<running_total (take n ds)}"
proof (induction n)
  case 0
  then show ?case by simp
next
  case (Suc n)
  then have IH: "(\<Union>i<n. {running_total (take i ds) ..< running_total (take (Suc i) ds)}) =
     {..<running_total (take n ds)}" by simp
  have "running_total (take n ds) \<le> running_total (take (Suc n) ds)"
    by (rule running_total_take_mono) simp
  then have "{..<running_total (take n ds)} \<union>
             {running_total (take n ds) ..< running_total (take (Suc n) ds)} =
             {..<running_total (take (Suc n) ds)}"
    by (rule ivl_disj_un)
  with IH show ?case by (simp add: lessThan_Suc Un_commute)
qed

lemma ranges_disjoint:
  assumes "i < j"
  shows "{running_total (take i ds) ..< running_total (take (Suc i) ds)} \<inter>
         {running_total (take j ds) ..< running_total (take (Suc j) ds)} = {}"
proof -
  from assms have "running_total (take (Suc i) ds) \<le> running_total (take j ds)"
    by (intro running_total_take_mono) simp
  then show ?thesis by auto
qed

text \<open>
  Claim C1. Whenever a sequence of declarations of types \<open>T\<^sub>1 \<dots> T\<^sub>n\<close> into an initially
  empty ledger succeeds, the ranges \<open>[offset\<^sub>i, offset\<^sub>i + footprint(T\<^sub>i))\<close> of the slots are
  pairwise disjoint, their union is the whole buffer \<open>[0, size())\<close> and so has \<open>size()\<close>
  elements, and every name present has \<open>slot_offset[name] + footprint(slot_type[name])\<close> at
  most \<open>size\<close>.
\<close>

theorem declared_slots_partition_buffer:
  assumes "add_all ds (History_new b) = (None, h)"
  shows "(\<forall>i<length ds. \<forall>j<length ds. i \<noteq> j \<longrightarrow>
            slot_range h (ds ! i) \<inter> slot_range h (ds ! j) = {}) \<and>
         (\<forall>i<length ds. \<exists>off. loc_m h (snd (ds ! i)) = Some off \<and>
            slot_range h (ds ! i) = {off ..< off + GetStorageSize (fst (ds ! i))}) \<and>
         (\<Union>i<length ds. slot_range h (ds ! i)) = {..<size_of h} \<and>
         card (\<Union>i<length ds. slot_range h (ds ! i)) = size_of h \<and>
         (\<forall>name off. loc_m h name = Some off \<longrightarrow>
            (\<exists>T. type_m h name = Some (GetStorageType T) \<and>
                 off + GetStorageSize T \<le> size_of h))"
proof -
  note L = layout [OF assms]
  have rng: "slot_range h (ds ! i) =
      {running_total (take i ds) ..< running_total (take (Suc i) ds)}"
    if "i < length ds" for i
    using assms that by (rule slot_range_declared)
  have disj: "slot_range h (ds ! i) \<inter> slot_range h (ds ! j) = {}"
    if "i < length ds" "j < length ds" "i \<noteq> j" for i j
  proof (cases "i < j")
    case True
    show ?thesis
      unfolding rng [OF that(1)] rng [OF that(2)] using True by (rule ranges_disjoint)
  next
    case False
    with that have "j < i" by simp
    then have "slot_range h (ds ! j) \<inter> slot_range h (ds ! i) = {}"
      unfolding rng [OF that(1)] rng [OF that(2)] by (rule ranges_disjoint)
    then show ?thesis by (simp only: Int_commute)
  qed
  have offs: "\<exists>off. loc_m h (snd (ds ! i)) = Some off \<and>
            slot_range h (ds ! i) = {off ..< off + GetStorageSize (fst (ds ! i))}"
    if "i < length ds" for i
    using L that by (simp add: slot_range_def)
  have "(\<Union>i<length ds. slot_range h (ds ! i)) =
        (\<Union>i<length ds. {running_total (take i ds) ..< running_total (take (Suc i) ds)})"
    by (simp add: rng)
  also have "\<dots> = {..<running_total (take (length ds) ds)}"
    by (rule ranges_cover) simp
  finally have cover: "(\<Union>i<length ds. slot_range h (ds ! i)) = {..<size_of h}"
    using L by (simp add: size_of_def)
  have bound: "\<exists>T. type_m h name = Some (GetStorageType T) \<and>
                 off + GetStorageSize T \<le> size_of h"
    if "loc_m h name = Some off" for name off
  proof -
    from that L have "name \<in> snd ` set ds" by (metis domI)
    then obtain i where i: "i < length ds" and n: "name = snd (ds ! i)"
      by (auto simp: in_set_conv_nth)
    with L that have off: "off = running_total (take i ds)"
      and ty: "type_m h name = Some (GetStorageType (fst (ds ! i)))"
      by simp_all
    from i have "running_total (take (Suc i) ds) \<le> running_total (take (length ds) ds)"
      by (intro running_total_take_mono) simp
    with i L off have "off + GetStorageSize (fst (ds ! i)) \<le> size_of h"
      by (simp add: running_total_take_Suc size_of_def)
    with ty show ?thesis by blast
  qed
  from disj offs cover bound show ?thesis by simp
qed

text \<open>
  The scenario of the specification: \<open>stress\<close> occupies cells 0 to 5, \<open>hardening\<close> cell 6,
  and the size is 7.
\<close>

theorem declared_slots_partition_buffer_witness:
  "add_all stress_hardening (History_new True) = (None, stress_hardening_ledger) \<and>
   slot_range stress_hardening_ledger (stress_hardening ! 0) = {0..<6} \<and>
   slot_range stress_hardening_ledger (stress_hardening ! 1) = {6..<7} \<and>
   card (\<Union>i<length stress_hardening. slot_range stress_hardening_ledger (stress_hardening ! i)) = 7 \<and>
   size_of stress_hardening_ledger = 7"
proof -
  have ok: "fst (add_all stress_hardening (History_new True :: nat history)) = None"
    by (simp add: stress_hardening_def History_new_def add_owning)
  then have run: "add_all stress_hardening (History_new True) = (None, stress_hardening_ledger)"
    by (simp add: stress_hardening_ledger_def prod_eq_iff)
  have sz: "size_of stress_hardening_ledger = 7"
    by (simp add: stress_hardening_ledger_def stress_hardening_def History_new_def add_owning
        size_of_def)
  have r0: "slot_range stress_hardening_ledger (stress_hardening ! 0) = {0..<6}"
    by (simp add: stress_hardening_ledger_def stress_hardening_def History_new_def add_owning
        slot_range_def map_insert_def)
  have r1: "slot_range stress_hardening_ledger (stress_hardening ! 1) = {6..<7}"
    by (simp add: stress_hardening_ledger_def stress_hardening_def History_new_def add_owning
        slot_range_def map_insert_def)
  from declared_slots_partition_buffer [OF run] sz
  have "card (\<Union>i<length stress_hardening.
           slot_range stress_hardening_ledger (stress_hardening ! i)) = 7"
    by simp
  with run sz r0 r1 show ?thesis by simp
qed

section \<open>Basic facts about retrieval and views\<close>

lemma get_declared:
  "loc_m h name = Some off \<Longrightarrow> type_m h name = Some (GetStorageType T) \<Longrightarrow>
   get T name h = Inr (if T = Double then Reference off else Wrapper T off)"
  by (simp add: get_def error_if_not_exists_def error_if_wrong_type_def)

lemma get_unknown: "loc_m h name = None \<Longrightarrow> get T name h = Inl UnknownName"
  by (simp add: get_def error_if_not_exists_def)

lemma get_mismatch:
  "loc_m h name \<noteq> None \<Longrightarrow> type_m h name \<noteq> Some (GetStorageType T) \<Longrightarrow>
   get T name h = Inl TypeMismatch"
  by (auto simp: get_def error_if_not_exists_def error_if_wrong_type_def)

lemma get_item_shape:
  "get T name h = Inr it \<Longrightarrow>
   loc_m h name = Some (item_offset it) \<and> item_footprint it = GetStorageSize T"
  by (auto simp: get_def error_if_not_exists_def error_if_wrong_type_def
      split: if_splits option.splits)

lemma get_ignores_buffer: "get T name (h\<lparr>storage_m := s\<rparr>) = get T name h"
  by (simp add: get_def error_if_not_exists_def error_if_wrong_type_def)

lemma write_then_read:
  assumes "item_offset it + item_footprint it \<le> length (storage_m h)"
    and "length v = item_footprint it"
  shows "\<exists>h'. write_item it v h = Some h' \<and> read_item it h' = Some (map Some v) \<and>
           h' = h\<lparr>storage_m := storage_m h'\<rparr> \<and> length (storage_m h') = length (storage_m h)"
proof -
  let ?off = "item_offset it" and ?fp = "item_footprint it" and ?s = "storage_m h"
  let ?s' = "take ?off ?s @ map Some v @ drop (?off + ?fp) ?s"
  from assms(1) have lt: "length (take ?off ?s) = ?off" by simp
  from assms have len: "length ?s' = length ?s" by simp
  from lt have "drop ?off ?s' = map Some v @ drop (?off + ?fp) ?s" by simp
  with assms(2) have rd: "take ?fp (drop ?off ?s') = map Some v" by simp
  from assms have w: "write_item it v h = Some (h\<lparr>storage_m := ?s'\<rparr>)"
    by (simp add: write_item_def)
  from assms(1) len rd have "read_item it (h\<lparr>storage_m := ?s'\<rparr>) = Some (map Some v)"
    by (simp add: read_item_def)
  with w len show ?thesis by simp
qed

lemma write_reference:
  "off < length (storage_m h) \<Longrightarrow>
   write_item (Reference off) [x] h = Some (h\<lparr>storage_m := (storage_m h)[off := Some x]\<rparr>)"
  by (simp add: write_item_def upd_conv_take_nth_drop)

lemma tag_not_array: "GetStorageType T \<noteq> TYPE_ARRAY"
  by (cases T) simp_all

lemma add_no_array:
  assumes "\<forall>n. type_m h n \<noteq> Some TYPE_ARRAY" and "add T name h = (r, h')"
  shows "\<forall>n. type_m h' n \<noteq> Some TYPE_ARRAY"
  using assms
  by (cases "loc_m h name = None"; cases "store_m h")
     (auto simp: add_duplicate add_not_owning add_owning map_insert_def tag_not_array
           split: option.splits if_splits)

lemma add_all_no_array:
  "\<forall>n. type_m h n \<noteq> Some TYPE_ARRAY \<Longrightarrow> add_all ds h = (r, h') \<Longrightarrow>
   \<forall>n. type_m h' n \<noteq> Some TYPE_ARRAY"
proof (induction ds arbitrary: h)
  case Nil
  then show ?case by simp
next
  case (Cons d ds)
  obtain r1 h1 where a: "add (fst d) (snd d) h = (r1, h1)" by (cases "add (fst d) (snd d) h")
  from add_no_array [OF Cons.prems(1) a] have inv: "\<forall>n. type_m h1 n \<noteq> Some TYPE_ARRAY" .
  show ?case
  proof (cases r1)
    case None
    with a Cons.prems(2) have "add_all ds h1 = (r, h')" by simp
    from Cons.IH [OF inv this] show ?thesis .
  next
    case (Some e)
    with a Cons.prems(2) have "h' = h1" by simp
    with inv show ?thesis by simp
  qed
qed

lemma stress_hardening_run:
  "add_all stress_hardening (History_new True) = (None, stress_hardening_ledger)"
proof -
  have "fst (add_all stress_hardening (History_new True :: nat history)) = None"
    by (simp add: stress_hardening_def History_new_def add_owning)
  then show ?thesis by (simp add: stress_hardening_ledger_def prod_eq_iff)
qed

lemma stress_hardening_fields:
  "loc_m stress_hardening_ledger ''stress'' = Some 0"
  "loc_m stress_hardening_ledger ''hardening'' = Some 6"
  "loc_m stress_hardening_ledger ''damage'' = None"
  "type_m stress_hardening_ledger ''stress'' = Some TYPE_SYMMETRIC"
  "type_m stress_hardening_ledger ''hardening'' = Some TYPE_SCALAR"
  "type_m stress_hardening_ledger ''damage'' = None"
  "store_m stress_hardening_ledger"
  "size_of stress_hardening_ledger = 7"
  "length (storage_m stress_hardening_ledger) = 7"
  "storage_m stress_hardening_ledger ! 6 = None"
  by (simp_all add: stress_hardening_ledger_def stress_hardening_def History_new_def
      add_owning map_insert_def size_of_def nth_append)

section \<open>Declaring one slot\<close>

text \<open>
  Claim C2, as amended. For every ledger that owns its storage and every name present in
  neither map, \<^verbatim>\<open>add<T>(name)\<close> returns normally, records \<open>slot_offset[name]\<close> equal to the size before
  the call and \<open>slot_type[name] = tag(T)\<close>, and increases the size by exactly
  \<open>footprint(T)\<close>; in a successful sequence of declarations into an empty ledger the offset
  of the \<open>i\<close>-th slot is the running total of the footprints of the slots declared before
  it.
\<close>

theorem add_records_offset_and_type_then_grows:
  "(store_m h \<and> loc_m h name = None \<and> type_m h name = None \<longrightarrow>
      (\<exists>h'. add T name h = (None, h') \<and>
            loc_m h' name = Some (size_of h) \<and>
            type_m h' name = Some (GetStorageType T) \<and>
            size_of h' = size_of h + GetStorageSize T)) \<and>
   (add_all ds (History_new b) = (None, g) \<longrightarrow>
      (\<forall>i<length ds. loc_m g (snd (ds ! i)) = Some (running_total (take i ds))))"
proof (intro conjI impI)
  assume "store_m h \<and> loc_m h name = None \<and> type_m h name = None"
  then show "\<exists>h'. add T name h = (None, h') \<and>
            loc_m h' name = Some (size_of h) \<and>
            type_m h' name = Some (GetStorageType T) \<and>
            size_of h' = size_of h + GetStorageSize T"
    by (simp add: add_owning map_insert_def size_of_def)
next
  assume "add_all ds (History_new b) = (None, g)"
  from layout [OF this]
  show "\<forall>i<length ds. loc_m g (snd (ds ! i)) = Some (running_total (take i ds))"
    by simp
qed

theorem add_records_offset_and_type_then_grows_witness:
  "store_m stress_hardening_ledger \<and>
   loc_m stress_hardening_ledger ''damage'' = None \<and>
   type_m stress_hardening_ledger ''damage'' = None \<and>
   add_all stress_hardening (History_new True) = (None, stress_hardening_ledger) \<and>
   loc_m (snd (add Vector ''damage'' stress_hardening_ledger)) ''damage'' = Some 7 \<and>
   size_of (snd (add Vector ''damage'' stress_hardening_ledger)) = 10 \<and>
   loc_m stress_hardening_ledger ''hardening'' = Some 6"
proof -
  have own: "store_m stress_hardening_ledger"
    and fresh: "loc_m stress_hardening_ledger ''damage'' = None"
    and tfresh: "type_m stress_hardening_ledger ''damage'' = None"
    and sz: "size_of stress_hardening_ledger = 7"
    by (simp_all add: stress_hardening_ledger_def stress_hardening_def History_new_def
        add_owning map_insert_def size_of_def)
  have "fst (add_all stress_hardening (History_new True :: nat history)) = None"
    by (simp add: stress_hardening_def History_new_def add_owning)
  then have run: "add_all stress_hardening (History_new True) = (None, stress_hardening_ledger)"
    by (simp add: stress_hardening_ledger_def prod_eq_iff)
  note inst = add_records_offset_and_type_then_grows
    [of stress_hardening_ledger "''damage''" Vector stress_hardening True stress_hardening_ledger]
  from inst own fresh tfresh sz
  have a: "loc_m (snd (add Vector ''damage'' stress_hardening_ledger)) ''damage'' = Some 7"
    and b: "size_of (snd (add Vector ''damage'' stress_hardening_ledger)) = 10"
    by auto
  from inst run have "\<forall>i<length stress_hardening.
      loc_m stress_hardening_ledger (snd (stress_hardening ! i)) =
      Some (running_total (take i stress_hardening))"
    by blast
  then have "1 < length stress_hardening \<longrightarrow>
      loc_m stress_hardening_ledger (snd (stress_hardening ! 1)) =
      Some (running_total (take 1 stress_hardening))"
    by blast
  then have c: "loc_m stress_hardening_ledger ''hardening'' = Some 6"
    by (simp add: stress_hardening_def running_total_def)
  from own fresh tfresh run a b c show ?thesis by simp
qed

text \<open>
  On a ledger that does not own its storage the claim as stated fails: the name is not
  present, yet \<^verbatim>\<open>resize\<close> raises and the size does not grow.
\<close>

theorem add_on_view_ledger_counterexample:
  "loc_m (History_new False :: nat history) ''a'' = None \<and>
   fst (add Double ''a'' (History_new False :: nat history)) = Some UnsupportedResize \<and>
   size_of (snd (add Double ''a'' (History_new False :: nat history))) \<noteq>
     size_of (History_new False :: nat history) + GetStorageSize Double"
  by (simp add: History_new_def add_not_owning size_of_def)

section \<open>Round trip\<close>

text \<open>
  Claim C3. For every supported type \<open>T\<close>, every value \<open>v\<close> of type \<open>T\<close> (its \<open>footprint(T)\<close>
  components) and every name declared with type \<open>T\<close> in a ledger built by declarations,
  whatever the buffer holds at that moment: \<^verbatim>\<open>get<T>(name)\<close> returns a view, writing \<open>v\<close>
  through it is defined, and \<^verbatim>\<open>get<T>(name)\<close> afterwards returns the same view, which reads
  back exactly the components of \<open>v\<close>.
\<close>

theorem write_then_get_round_trip:
  assumes "add_all ds (History_new True) = (None, h)"
    and "(T, name) \<in> set ds"
    and "length v = GetStorageSize T"
    and "length s = length (storage_m h)"
  shows "\<exists>it h'. get T name (h\<lparr>storage_m := s\<rparr>) = Inr it \<and>
           write_item it v (h\<lparr>storage_m := s\<rparr>) = Some h' \<and>
           get T name h' = Inr it \<and>
           read_item it h' = Some (map Some v)"
proof -
  note L = layout [OF assms(1)]
  from assms(2) obtain i where i: "i < length ds" and d: "ds ! i = (T, name)"
    by (auto simp: in_set_conv_nth)
  with L have off: "loc_m h name = Some (running_total (take i ds))"
    and ty: "type_m h name = Some (GetStorageType T)"
    by (metis snd_conv, metis fst_conv snd_conv)
  define it where "it = (if T = Double then Reference (running_total (take i ds))
                         else Wrapper T (running_total (take i ds)))"
  have g: "get T name h = Inr it"
    unfolding it_def using off ty by (rule get_declared)
  have fp: "item_footprint it = GetStorageSize T" and io: "item_offset it = running_total (take i ds)"
    by (simp_all add: it_def)
  from i have "running_total (take (Suc i) ds) \<le> running_total (take (length ds) ds)"
    by (intro running_total_take_mono) simp
  with i d L have inb: "item_offset it + item_footprint it \<le> length (storage_m (h\<lparr>storage_m := s\<rparr>))"
    by (simp add: fp io running_total_take_Suc assms(4))
  from assms(3) fp have len: "length v = item_footprint it" by simp
  from write_then_read [OF inb len] obtain h' where
    w: "write_item it v (h\<lparr>storage_m := s\<rparr>) = Some h'" and
    r: "read_item it h' = Some (map Some v)" and
    e: "h' = h\<lparr>storage_m := s\<rparr>\<lparr>storage_m := storage_m h'\<rparr>"
    by blast
  from e have "get T name h' = get T name (h\<lparr>storage_m := storage_m h'\<rparr>)" by simp
  with g have g': "get T name h' = Inr it" by (simp only: get_ignores_buffer)
  from g have "get T name (h\<lparr>storage_m := s\<rparr>) = Inr it" by (simp only: get_ignores_buffer)
  with w g' r show ?thesis by blast
qed

theorem write_then_get_round_trip_witness:
  "add_all stress_hardening (History_new True) = (None, stress_hardening_ledger) \<and>
   (Symmetric, ''stress'') \<in> set stress_hardening \<and>
   length [1, 2, 3, 4, 5, 6 :: nat] = GetStorageSize Symmetric \<and>
   (\<exists>it h'. get Symmetric ''stress'' stress_hardening_ledger = Inr it \<and>
      write_item it [1, 2, 3, 4, 5, 6] stress_hardening_ledger = Some h' \<and>
      get Symmetric ''stress'' h' = Inr it \<and>
      read_item it h' = Some [Some 1, Some 2, Some 3, Some 4, Some 5, Some 6])"
proof -
  have m: "(Symmetric, ''stress'') \<in> set stress_hardening"
    by (simp add: stress_hardening_def)
  have l: "length [1, 2, 3, 4, 5, 6 :: nat] = GetStorageSize Symmetric" by simp
  from write_then_get_round_trip [OF stress_hardening_run m l refl]
  have "\<exists>it h'. get Symmetric ''stress'' stress_hardening_ledger = Inr it \<and>
      write_item it [1, 2, 3, 4, 5, 6] stress_hardening_ledger = Some h' \<and>
      get Symmetric ''stress'' h' = Inr it \<and>
      read_item it h' = Some [Some 1, Some 2, Some 3, Some 4, Some 5, Some 6]"
    by simp
  with stress_hardening_run m l show ?thesis by blast
qed

section \<open>Failures of retrieval\<close>

text \<open>
  Claim C4. For every ledger and every requested type \<open>T\<close>, \<^verbatim>\<open>get<T>(name)\<close> fails with
  \<open>UnknownName\<close> when the name is absent and with \<open>TypeMismatch\<close> when the name is present
  with a tag other than \<open>tag(T)\<close>. The function returns no ledger, so it writes nothing, and
  its result is the same whatever the buffer holds, so it reads nothing of it.
\<close>

theorem get_failures:
  "(loc_m h name = None \<longrightarrow> get T name h = Inl UnknownName) \<and>
   (loc_m h name \<noteq> None \<and> type_m h name = Some u \<and> u \<noteq> GetStorageType T \<longrightarrow>
      get T name h = Inl TypeMismatch) \<and>
   get T name (h\<lparr>storage_m := s\<rparr>) = get T name h"
  by (auto simp: get_unknown get_mismatch get_ignores_buffer)

theorem get_failures_witness:
  "loc_m stress_hardening_ledger ''damage'' = None \<and>
   get Double ''damage'' stress_hardening_ledger = Inl UnknownName \<and>
   loc_m stress_hardening_ledger ''stress'' \<noteq> None \<and>
   type_m stress_hardening_ledger ''stress'' = Some TYPE_SYMMETRIC \<and>
   TYPE_SYMMETRIC \<noteq> GetStorageType Double \<and>
   get Double ''stress'' stress_hardening_ledger = Inl TypeMismatch"
  using get_failures [where h = stress_hardening_ledger and name = "''damage''" and T = Double]
    get_failures [where h = stress_hardening_ledger and name = "''stress''" and T = Double
      and u = TYPE_SYMMETRIC]
  by (simp add: stress_hardening_fields)

section \<open>Failures of declaration\<close>

text \<open>
  Claim C5, as amended. A call \<^verbatim>\<open>add<T>(name)\<close> on a name already present raises \<open>DuplicateDeclaration\<close> and
  leaves the ledger as it was. A call that fails for whatever cause leaves the size, the
  ownership flag and the contents of the storage unchanged, and a failure by duplicate
  declaration leaves the two maps unchanged as well.
\<close>

theorem failed_add_keeps_buffer_and_duplicate_keeps_all:
  "(loc_m h name \<noteq> None \<longrightarrow> add T name h = (Some DuplicateDeclaration, h)) \<and>
   (add T name h = (Some e, h') \<longrightarrow>
      size_of h' = size_of h \<and> storage_m h' = storage_m h \<and> store_m h' = store_m h \<and>
      (e = DuplicateDeclaration \<longrightarrow> h' = h))"
proof (intro conjI impI)
  assume "loc_m h name \<noteq> None"
  then show "add T name h = (Some DuplicateDeclaration, h)" by (rule add_duplicate)
next
  assume f: "add T name h = (Some e, h')"
  show "size_of h' = size_of h"
    using f by (cases "loc_m h name = None"; cases "store_m h")
      (auto simp: add_duplicate add_not_owning add_owning size_of_def)
  show "storage_m h' = storage_m h"
    using f by (cases "loc_m h name = None"; cases "store_m h")
      (auto simp: add_duplicate add_not_owning add_owning)
  show "store_m h' = store_m h"
    using f by (cases "loc_m h name = None"; cases "store_m h")
      (auto simp: add_duplicate add_not_owning add_owning)
next
  assume f: "add T name h = (Some e, h')" and "e = DuplicateDeclaration"
  then show "h' = h"
    by (cases "loc_m h name = None"; cases "store_m h")
      (auto simp: add_duplicate add_not_owning add_owning)
qed

theorem failed_add_keeps_buffer_and_duplicate_keeps_all_witness:
  "loc_m stress_hardening_ledger ''stress'' \<noteq> None \<and>
   add Double ''stress'' stress_hardening_ledger =
     (Some DuplicateDeclaration, stress_hardening_ledger) \<and>
   size_of (snd (add Double ''stress'' stress_hardening_ledger)) = 7"
proof -
  have p: "loc_m stress_hardening_ledger ''stress'' \<noteq> None"
    and sz: "size_of stress_hardening_ledger = 7"
    by (simp_all add: stress_hardening_ledger_def stress_hardening_def History_new_def
        add_owning map_insert_def size_of_def)
  note inst = failed_add_keeps_buffer_and_duplicate_keeps_all
    [of stress_hardening_ledger "''stress''" Double DuplicateDeclaration stress_hardening_ledger]
  from inst p have d: "add Double ''stress'' stress_hardening_ledger =
     (Some DuplicateDeclaration, stress_hardening_ledger)" by blast
  with inst sz have "size_of (snd (add Double ''stress'' stress_hardening_ledger)) = 7"
    by simp
  with p d show ?thesis by simp
qed

text \<open>
  The claim as stated fails for the other cause of failure: on a ledger that does not own
  its storage \<^verbatim>\<open>resize\<close> raises after \<^verbatim>\<open>add\<close> has inserted the name into both maps.
\<close>

theorem failed_add_changes_maps_counterexample:
  "fst (add Double ''a'' (History_new False :: nat history)) = Some UnsupportedResize \<and>
   loc_m (History_new False :: nat history) ''a'' = None \<and>
   loc_m (snd (add Double ''a'' (History_new False :: nat history))) ''a'' = Some 0 \<and>
   type_m (History_new False :: nat history) ''a'' = None \<and>
   type_m (snd (add Double ''a'' (History_new False :: nat history))) ''a'' = Some TYPE_SCALAR"
  by (simp add: History_new_def add_not_owning map_insert_def)

section \<open>The scalar specialisation\<close>

text \<open>
  Claim C6. For every ledger and every name declared with the scalar type,
  \<^verbatim>\<open>get<double>(name)\<close> returns a reference to the cell at \<open>slot_offset[name]\<close>, not a
  wrapper; where that cell lies in the buffer, reading the reference yields the cell, and
  assigning through it replaces exactly that element of the buffer and changes nothing
  else of the ledger.
\<close>

theorem get_double_is_reference_to_cell:
  assumes "loc_m h name = Some off" and "type_m h name = Some TYPE_SCALAR"
  shows "get Double name h = Inr (Reference off) \<and>
         (off < length (storage_m h) \<longrightarrow>
            read_item (Reference off) h = Some [storage_m h ! off] \<and>
            write_item (Reference off) [x] h =
              Some (h\<lparr>storage_m := (storage_m h)[off := Some x]\<rparr>))"
proof (intro conjI impI)
  from assms show "get Double name h = Inr (Reference off)"
    by (simp add: get_declared)
next
  assume "off < length (storage_m h)"
  then show "read_item (Reference off) h = Some [storage_m h ! off]"
    by (simp add: read_item_def take_Suc_conv_app_nth)
next
  assume "off < length (storage_m h)"
  then show "write_item (Reference off) [x] h =
           Some (h\<lparr>storage_m := (storage_m h)[off := Some x]\<rparr>)"
    by (rule write_reference)
qed

theorem get_double_is_reference_to_cell_witness:
  "loc_m stress_hardening_ledger ''hardening'' = Some 6 \<and>
   type_m stress_hardening_ledger ''hardening'' = Some TYPE_SCALAR \<and>
   6 < length (storage_m stress_hardening_ledger) \<and>
   get Double ''hardening'' stress_hardening_ledger = Inr (Reference 6) \<and>
   write_item (Reference 6) [5] stress_hardening_ledger =
     Some (stress_hardening_ledger\<lparr>storage_m := (storage_m stress_hardening_ledger)[6 := Some 5]\<rparr>)"
  using get_double_is_reference_to_cell [of stress_hardening_ledger "''hardening''" 6 5]
  by (simp add: stress_hardening_fields)

section \<open>Const and mutable handles\<close>

text \<open>
  Claim C7, as amended. \<^verbatim>\<open>get<T>(name)\<close> is one \<^verbatim>\<open>const\<close> member: through a \<^verbatim>\<open>const\<close> handle and through a mutable
  handle it returns the same result, and in both cases the view (for \<^verbatim>\<open>double\<close>, the
  reference) it returns within the buffer is a live mutable one: a write through it is
  defined and is read back from the buffer.
\<close>

theorem get_is_one_const_member_returning_mutable_access:
  "get_via ConstHandle T name h = get_via MutableHandle T name h \<and>
   (get_via via T name h = Inr it \<and>
    item_offset it + item_footprint it \<le> length (storage_m h) \<and>
    length v = GetStorageSize T \<longrightarrow>
      (\<exists>h'. write_item it v h = Some h' \<and> read_item it h' = Some (map Some v)))"
proof (intro conjI impI)
  show "get_via ConstHandle T name h = get_via MutableHandle T name h"
    by (simp add: get_via_def)
next
  assume a: "get_via via T name h = Inr it \<and>
    item_offset it + item_footprint it \<le> length (storage_m h) \<and>
    length v = GetStorageSize T"
  then have "get T name h = Inr it" by (cases via) (simp_all add: get_via_def)
  from get_item_shape [OF this] a have "length v = item_footprint it" by simp
  with a write_then_read [of it h v]
  show "\<exists>h'. write_item it v h = Some h' \<and> read_item it h' = Some (map Some v)"
    by blast
qed

theorem get_is_one_const_member_returning_mutable_access_witness:
  "get_via ConstHandle Double ''hardening'' stress_hardening_ledger = Inr (Reference 6) \<and>
   item_offset (Reference 6) + item_footprint (Reference 6) \<le> length (storage_m stress_hardening_ledger) \<and>
   length [5 :: nat] = GetStorageSize Double \<and>
   (\<exists>h'. write_item (Reference 6) [5] stress_hardening_ledger = Some h' \<and>
         read_item (Reference 6) h' = Some [Some 5])"
proof -
  have g: "get_via ConstHandle Double ''hardening'' stress_hardening_ledger = Inr (Reference 6)"
    by (simp add: get_via_def get_declared stress_hardening_fields)
  have b: "item_offset (Reference 6) + item_footprint (Reference 6) \<le>
      length (storage_m stress_hardening_ledger)"
    by (simp add: stress_hardening_fields)
  from get_is_one_const_member_returning_mutable_access
    [of Double "''hardening''" stress_hardening_ledger ConstHandle "Reference 6" "[5]"] g b
  have "\<exists>h'. write_item (Reference 6) [5] stress_hardening_ledger = Some h' \<and>
         read_item (Reference 6) h' = Some [Some 5]"
    by simp
  with g b show ?thesis by simp
qed

text \<open>
  The claim as stated fails: the reference obtained through a \<^verbatim>\<open>const\<close> handle is assigned
  through, and cell 6 of the buffer changes.
\<close>

theorem const_handle_get_mutates_counterexample:
  "get_via ConstHandle Double ''hardening'' stress_hardening_ledger = Inr (Reference 6) \<and>
   write_item (Reference 6) [5] stress_hardening_ledger =
     Some (stress_hardening_ledger\<lparr>storage_m := (storage_m stress_hardening_ledger)[6 := Some 5]\<rparr>) \<and>
   storage_m stress_hardening_ledger ! 6 = None \<and>
   (storage_m stress_hardening_ledger)[6 := Some 5] ! 6 = Some 5"
  by (simp add: get_via_def get_declared write_reference stress_hardening_fields)

section \<open>The registry\<close>

text \<open>
  Claim C8. The registry is defined for exactly six value types and gives each its footprint in
  scalars: scalar 1, 3-vector 3, skew tensor 3, symmetric tensor 6, general tensor 9,
  rotation 4; it gives each a tag of its own. A type outside the six is not a term of
  \<^typ>\<open>value_type\<close>, as a use of the unspecialised template is not a program that builds.
\<close>

theorem registry_footprints:
  "GetStorageSize Double = 1 \<and> GetStorageSize Vector = 3 \<and> GetStorageSize Skew = 3 \<and>
   GetStorageSize Symmetric = 6 \<and> GetStorageSize RankTwo = 9 \<and>
   GetStorageSize Orientation = 4 \<and>
   (UNIV :: value_type set) = {Double, Vector, Skew, Symmetric, RankTwo, Orientation} \<and>
   card (UNIV :: value_type set) = 6 \<and>
   map GetStorageType [Double, Vector, Skew, Symmetric, RankTwo, Orientation] =
     [TYPE_SCALAR, TYPE_VECTOR, TYPE_SKEW, TYPE_SYMMETRIC, TYPE_RANKTWO, TYPE_ROT]"
proof -
  have u: "(UNIV :: value_type set) = {Double, Vector, Skew, Symmetric, RankTwo, Orientation}"
  proof -
    have "T \<in> {Double, Vector, Skew, Symmetric, RankTwo, Orientation}" for T
      by (cases T) simp_all
    then show ?thesis by blast
  qed
  have "card {Double, Vector, Skew, Symmetric, RankTwo, Orientation} = 6" by simp
  with u show ?thesis by simp
qed

section \<open>Mutable access to the maps\<close>

text \<open>
  Claim C9. The non-\<^verbatim>\<open>const\<close> getters expose the maps themselves: what the caller does to the
  returned map is what the ledger then holds, nothing is checked, and a later
  \<^verbatim>\<open>get<T>(name)\<close> uses the altered values: after the offset of a name is set to any \<open>k\<close>
  (inside the buffer or not) the view is at \<open>k\<close>, and after the tag of a name is set to
  \<open>tag(T)\<close> the name is retrieved at type \<open>T\<close>, whatever it was declared with.
\<close>

theorem map_getters_are_live:
  "get_loc (modify_loc f h) = f (get_loc h) \<and>
   get_type (modify_type g h) = g (get_type h) \<and>
   (type_m h name = Some (GetStorageType T) \<longrightarrow>
      get T name (modify_loc (\<lambda>m. m(name \<mapsto> k)) h) =
        Inr (if T = Double then Reference k else Wrapper T k)) \<and>
   (loc_m h name = Some off \<longrightarrow>
      get T name (modify_type (\<lambda>m. m(name \<mapsto> GetStorageType T)) h) =
        Inr (if T = Double then Reference off else Wrapper T off))"
  by (simp add: get_loc_def get_type_def modify_loc_def modify_type_def get_declared)

theorem map_getters_are_live_witness:
  "type_m stress_hardening_ledger ''stress'' = Some (GetStorageType Symmetric) \<and>
   get Symmetric ''stress'' (modify_loc (\<lambda>m. m(''stress'' \<mapsto> 100)) stress_hardening_ledger) =
     Inr (Wrapper Symmetric 100) \<and>
   size_of (modify_loc (\<lambda>m. m(''stress'' \<mapsto> 100)) stress_hardening_ledger) = 7 \<and>
   loc_m stress_hardening_ledger ''stress'' = Some 0 \<and>
   get Double ''stress'' (modify_type (\<lambda>m. m(''stress'' \<mapsto> GetStorageType Double)) stress_hardening_ledger) =
     Inr (Reference 0)"
proof -
  have sz: "size_of (modify_loc (\<lambda>m. m(''stress'' \<mapsto> 100)) stress_hardening_ledger) = 7"
    using stress_hardening_fields(8) by (simp add: modify_loc_def size_of_def)
  from map_getters_are_live [of id stress_hardening_ledger id "''stress''" Symmetric 100]
    map_getters_are_live [of id stress_hardening_ledger id "''stress''" Double _ 0]
    sz
  show ?thesis by (simp add: stress_hardening_fields)
qed

section \<open>The tag without a type\<close>

text \<open>
  Claim C10. No supported type has the tag \<open>TYPE_ARRAY\<close>; a ledger built from an empty one by
  declarations, successful or not, records \<open>TYPE_ARRAY\<close> for no name; and on any ledger a
  slot that carries \<open>TYPE_ARRAY\<close> is matched by no \<^verbatim>\<open>get<T>\<close>: the call fails.
\<close>

theorem array_tag_never_recorded_never_matched:
  "GetStorageType T \<noteq> TYPE_ARRAY \<and>
   (add_all ds (History_new b) = (r, h) \<longrightarrow> type_m h name \<noteq> Some TYPE_ARRAY) \<and>
   (type_m g name = Some TYPE_ARRAY \<longrightarrow>
      get U name g = Inl (if loc_m g name = None then UnknownName else TypeMismatch))"
proof (intro conjI impI)
  show "GetStorageType T \<noteq> TYPE_ARRAY" by (rule tag_not_array)
next
  assume run: "add_all ds (History_new b) = (r, h)"
  have "\<forall>n. type_m (History_new b :: 'a history) n \<noteq> Some TYPE_ARRAY"
    by (simp add: History_new_def)
  from add_all_no_array [OF this run] show "type_m h name \<noteq> Some TYPE_ARRAY" by simp
next
  assume "type_m g name = Some TYPE_ARRAY"
  then have "type_m g name \<noteq> Some (GetStorageType U)"
    using tag_not_array [of U] by auto
  then show "get U name g = Inl (if loc_m g name = None then UnknownName else TypeMismatch)"
    by (simp add: get_unknown get_mismatch)
qed

theorem array_tag_never_recorded_never_matched_witness:
  "add_all stress_hardening (History_new True) = (None, stress_hardening_ledger) \<and>
   type_m stress_hardening_ledger ''stress'' \<noteq> Some TYPE_ARRAY \<and>
   type_m (modify_type (\<lambda>m. m(''stress'' \<mapsto> TYPE_ARRAY)) stress_hardening_ledger) ''stress'' =
     Some TYPE_ARRAY \<and>
   get Symmetric ''stress'' (modify_type (\<lambda>m. m(''stress'' \<mapsto> TYPE_ARRAY)) stress_hardening_ledger) =
     Inl TypeMismatch"
proof -
  let ?g = "modify_type (\<lambda>m. m(''stress'' \<mapsto> TYPE_ARRAY)) stress_hardening_ledger"
  have t: "type_m ?g ''stress'' = Some TYPE_ARRAY" and l: "loc_m ?g ''stress'' = Some 0"
    by (simp_all add: modify_type_def stress_hardening_fields)
  note inst = array_tag_never_recorded_never_matched
    [of Symmetric stress_hardening True None stress_hardening_ledger "''stress''" ?g Symmetric]
  from inst stress_hardening_run
  have a: "type_m stress_hardening_ledger ''stress'' \<noteq> Some TYPE_ARRAY" by blast
  from inst t l have b: "get Symmetric ''stress'' ?g = Inl TypeMismatch" by simp
  from stress_hardening_run a t b show ?thesis by blast
qed

end
